theory Spec2Isabelle
  imports Main "HOL-Library.AList"
begin

section \<open>Python strings\<close>

text \<open>
  A Python \<open>str\<close> is a sequence of Unicode code points; a code point is a natural
  number. \<open>str\<close> turns an ASCII literal of the source into such a sequence; the rupee
  sign of \<^verbatim>\<open>scraper.py\<close> is the code point U+20B9.
\<close>

type_synonym pystr = "nat list"

definition str :: "string \<Rightarrow> pystr" where
  "str s = map of_char s"

definition rupee :: pystr where
  "rupee = [0x20B9]"

text \<open>
  \<open>str.strip()\<close> without an argument removes the code points for which
  \<open>str.isspace\<close> holds, at both ends. The list is CPython's.
\<close>

definition isspace :: "nat \<Rightarrow> bool" where
  "isspace c \<longleftrightarrow>
     (9 \<le> c \<and> c \<le> 13) \<or> (28 \<le> c \<and> c \<le> 32) \<or> c = 0x85 \<or> c = 0xA0 \<or> c = 0x1680 \<or>
     (0x2000 \<le> c \<and> c \<le> 0x200A) \<or> c = 0x2028 \<or> c = 0x2029 \<or> c = 0x202F \<or>
     c = 0x205F \<or> c = 0x3000"

definition strip :: "pystr \<Rightarrow> pystr" where
  "strip s = rev (dropWhile isspace (rev (dropWhile isspace s)))"

text \<open>
  \<open>str.lower()\<close> on the ASCII letters. The case tables of the other scripts belong to
  the interpreter and are not modelled: a code point outside \<open>A\<close>..\<open>Z\<close> is kept.
\<close>

definition lower_cp :: "nat \<Rightarrow> nat" where
  "lower_cp c = (if 65 \<le> c \<and> c \<le> 90 then c + 32 else c)"

definition lower :: "pystr \<Rightarrow> pystr" where
  "lower s = map lower_cp s"

text \<open>
  \<open>s.replace(old, new)\<close>: the occurrences of \<open>old\<close> from the left, not overlapping;
  with an empty \<open>old\<close> Python puts \<open>new\<close> before every code point and at the end.
\<close>

function replace :: "pystr \<Rightarrow> pystr \<Rightarrow> pystr \<Rightarrow> pystr" where
  "replace old new s =
     (if old = [] then new @ concat (map (\<lambda>c. c # new) s)
      else if s = [] then []
      else if take (length old) s = old then new @ replace old new (drop (length old) s)
      else hd s # replace old new (tl s))"
  by pat_completeness auto
termination
  by (relation "measure (\<lambda>(old, new, s). length s)") auto

declare replace.simps [simp del]

text \<open>\<open>sub in s\<close> on strings: \<open>sub\<close> occurs in \<open>s\<close> as a contiguous part.\<close>

fun contains :: "pystr \<Rightarrow> pystr \<Rightarrow> bool" where
  "contains sub [] = (sub = [])"
| "contains sub (c # cs) = (take (length sub) (c # cs) = sub \<or> contains sub cs)"

section \<open>scraper.py: clean\_text\<close>

text \<open>
  \<^verbatim>\<open>if not text: return None\<close> covers \<open>None\<close> and the empty string;
  \<^verbatim>\<open>text.strip().replace('\n', ' ').replace('\r', ' ')\<close> follows. The code points
  10, 13 and 32 are the line feed, the carriage return and the space.
\<close>

definition clean_text :: "pystr option \<Rightarrow> pystr option" where
  "clean_text text =
     (case text of
        None \<Rightarrow> None
      | Some t \<Rightarrow> if t = [] then None else Some (replace [13] [32] (replace [10] [32] (strip t))))"

section \<open>The values of a scraped item\<close>

text \<open>
  \<open>decimal.Decimal\<close> values: a finite number is a sign (\<open>True\<close> for minus), a coefficient
  and an exponent of ten, so \<open>Decimal('1234.50')\<close> is \<open>DecFinite False 123450 (-2)\<close>, which
  differs from \<open>Decimal('1234.5')\<close> as it does in Python. The other values are the
  infinities and the NaNs (sign, signalling, diagnostic).
\<close>

datatype decimal = DecFinite bool nat int | DecInfinity bool | DecNaN bool bool nat

text \<open>
  The values a parser puts into its dictionary: \<open>None\<close>, a string, a \<open>Decimal\<close> and the
  nested dictionary under \<open>"metadata"\<close>. A dictionary is an association list in insertion
  order, read with \<open>map_of\<close> and written with \<open>AList.update\<close>, which keeps the place of a
  key that is already there, as a Python \<open>dict\<close> does.
\<close>

datatype pyval = PNone | PStr pystr | PDec decimal | PDict "(string \<times> pyval) list"

type_synonym item = "(string \<times> pyval) list"

datatype exn =
    AttributeError | KeyError | TypeError | InvalidOperation | UnicodeEncodeError
  | IntegrityError | OperationalError | RequestException | DataError

definition of_text :: "pystr option \<Rightarrow> pyval" where
  "of_text t = (case t of None \<Rightarrow> PNone | Some s \<Rightarrow> PStr s)"

section \<open>The constructor decimal.Decimal on a string\<close>

text \<open>
  The library's constructor, as its documentation gives the syntax of a numeric string:
  surrounding whitespace and underscores are removed, a sign may come first, then either
  digits with an optional fraction and an optional exponent, or \<open>Inf\<close>, \<open>Infinity\<close>,
  \<open>NaN\<close> or \<open>sNaN\<close> with optional diagnostic digits, letters in either case. Any other
  string raises \<open>decimal.InvalidOperation\<close>: the result \<open>None\<close>. Digits are the ASCII
  digits (code points 48 to 57).
\<close>

definition isdigit :: "nat \<Rightarrow> bool" where
  "isdigit c \<longleftrightarrow> 48 \<le> c \<and> c \<le> 57"

definition digits_value :: "pystr \<Rightarrow> nat" where
  "digits_value ds = foldl (\<lambda>n c. 10 * n + (c - 48)) 0 ds"

definition take_sign :: "pystr \<Rightarrow> bool \<times> pystr" where
  "take_sign s =
     (case s of
        [] \<Rightarrow> (False, [])
      | c # cs \<Rightarrow> if c = 45 then (True, cs) else if c = 43 then (False, cs) else (False, s))"

definition dec_exponent :: "pystr \<Rightarrow> int option" where
  "dec_exponent s =
     (case s of
        [] \<Rightarrow> Some 0
      | c # cs \<Rightarrow>
          if lower_cp c = 101 then
            (let (neg, ds) = take_sign cs in
             if ds \<noteq> [] \<and> list_all isdigit ds
             then Some (if neg then - int (digits_value ds) else int (digits_value ds))
             else None)
          else None)"

definition dec_number :: "bool \<Rightarrow> pystr \<Rightarrow> decimal option" where
  "dec_number neg s =
     (let ip = takeWhile isdigit s;
          r = dropWhile isdigit s;
          (fp, r') = (case r of
                        [] \<Rightarrow> ([], r)
                      | c # cs \<Rightarrow> if c = 46 then (takeWhile isdigit cs, dropWhile isdigit cs)
                                  else ([], r))
      in if ip = [] \<and> fp = [] then None
         else (case dec_exponent r' of
                 None \<Rightarrow> None
               | Some e \<Rightarrow> Some (DecFinite neg (digits_value (ip @ fp)) (e - int (length fp)))))"

definition Decimal :: "pystr \<Rightarrow> decimal option" where
  "Decimal v =
     (let (neg, body) = take_sign (replace (str ''_'') [] (strip v));
          low = lower body
      in if low = str ''inf'' \<or> low = str ''infinity'' then Some (DecInfinity neg)
         else if take 3 low = str ''nan'' \<and> list_all isdigit (drop 3 low)
           then Some (DecNaN neg False (digits_value (drop 3 low)))
         else if take 4 low = str ''snan'' \<and> list_all isdigit (drop 4 low)
           then Some (DecNaN neg True (digits_value (drop 4 low)))
         else dec_number neg body)"

section \<open>The parsed document\<close>

text \<open>
  \<open>BeautifulSoup(html_content, 'html.parser')\<close> is the library's; the parsers only ask it
  three things, and a \<open>soup\<close> holds the answers. A parser of the model takes the \<open>soup\<close>
  of its page where the source takes \<open>html_content\<close>.
  \<^item> \<open>h1\<close>: \<open>soup.find('h1')\<close>, the text of the first \<open>h1\<close> tag, \<open>None\<close> when there is none;
  \<^item> \<open>strong_tags\<close>: \<open>soup.find_all('strong')\<close>, for each tag its \<open>text\<close> and its
    \<open>find_next_sibling(text=True)\<close> (\<open>None\<close> when no text node follows);
  \<^item> \<open>price_table\<close>: \<open>soup.find('table', class_='unlisted-price-table')\<close>, \<open>None\<close> when
    there is none, else for each row of \<open>find_all('tr')\<close> the texts of its
    \<open>find_all('td')\<close> cells.
\<close>

record soup =
  h1 :: "pystr option"
  strong_tags :: "(pystr \<times> pystr option) list"
  price_table :: "pystr list list option"

section \<open>scraper.py: parse\_unlistedzone\_page\<close>

text \<open>
  The price lines shared by both parsers: the two \<open>replace\<close> calls that delete the
  rupee sign and the commas, and \<open>strip\<close>; \<open>decimal.Decimal\<close> takes the result.
\<close>

definition price_cleaned :: "pystr \<Rightarrow> pystr" where
  "price_cleaned price_str = strip (replace (str '','') [] (replace rupee [] price_str))"

text \<open>
  The body of the \<open>"Buy Price"\<close> branch. \<open>clean_text\<close> may give \<open>None\<close>, on which
  \<open>.replace\<close> raises \<open>AttributeError\<close>; \<open>Decimal\<close> may raise \<open>InvalidOperation\<close>.
\<close>

definition zone_price :: "item \<Rightarrow> pystr option \<Rightarrow> exn + item" where
  "zone_price item sibling =
     (case clean_text sibling of
        None \<Rightarrow> Inl AttributeError
      | Some price_str \<Rightarrow>
          (case Decimal (price_cleaned price_str) of
             None \<Rightarrow> Inl InvalidOperation
           | Some d \<Rightarrow>
               Inr (AList.update ''price_currency'' (PStr (str ''INR''))
                     (AList.update ''last_known_price'' (PDec d) item))))"

text \<open>
  One turn of the loop over the \<open>strong\<close> tags. \<open>if not tag_text: continue\<close> skips a tag
  whose cleaned text is \<open>None\<close> or empty; three \<open>if\<close>s follow, not an \<open>elif\<close> chain.
\<close>

definition zone_tag :: "item \<Rightarrow> pystr \<times> pystr option \<Rightarrow> exn + item" where
  "zone_tag item tag =
     (case clean_text (Some (fst tag)) of
        None \<Rightarrow> Inr item
      | Some tag_text \<Rightarrow>
          if tag_text = [] then Inr item
          else
            (case (if contains (str ''Buy Price'') tag_text then zone_price item (snd tag)
                   else Inr item) of
               Inl e \<Rightarrow> Inl e
             | Inr item1 \<Rightarrow>
                 (let item2 = (if contains (str ''Sector'') tag_text
                               then AList.update ''sector'' (of_text (clean_text (snd tag))) item1
                               else item1);
                      item3 = (if contains (str ''Status'') tag_text
                               then AList.update ''status'' (of_text (clean_text (snd tag))) item2
                               else item2)
                  in Inr item3)))"

fun zone_tags :: "item \<Rightarrow> (pystr \<times> pystr option) list \<Rightarrow> exn + item" where
  "zone_tags item [] = Inr item"
| "zone_tags item (t # ts) =
     (case zone_tag item t of Inl e \<Rightarrow> Inl e | Inr item' \<Rightarrow> zone_tags item' ts)"

text \<open>
  The parser. \<open>soup.find('h1').text\<close> raises \<open>AttributeError\<close> when there is no \<open>h1\<close>;
  the \<open>except Exception\<close> around the whole body turns every exception into the result
  \<open>None\<close>.
\<close>

definition parse_unlistedzone_page :: "pystr \<Rightarrow> soup \<Rightarrow> item option" where
  "parse_unlistedzone_page url soup =
     (let item = [(''source_url'', PStr url), (''source_name'', PStr (str ''UnlistedZone''))]
      in case h1 soup of
           None \<Rightarrow> None
         | Some t \<Rightarrow>
             (case zone_tags (AList.update ''company_name'' (of_text (clean_text (Some t))) item)
                     (strong_tags soup) of
                Inl e \<Rightarrow> None
              | Inr item' \<Rightarrow> Some item'))"

section \<open>scraper.py: parse\_unlistedarena\_page\<close>

text \<open>\<^verbatim>\<open>item.setdefault("metadata", {})["face_value"] = value\<close>\<close>

definition set_face_value :: "item \<Rightarrow> pyval \<Rightarrow> exn + item" where
  "set_face_value item v =
     (case map_of item ''metadata'' of
        None \<Rightarrow> Inr (AList.update ''metadata'' (PDict [(''face_value'', v)]) item)
      | Some (PDict d) \<Rightarrow>
          Inr (AList.update ''metadata'' (PDict (AList.update ''face_value'' v d)) item)
      | Some _ \<Rightarrow> Inl TypeError)"

text \<open>
  One row of the table. \<open>clean_text(cells[0].text).replace(':', '')\<close> raises
  \<open>AttributeError\<close> on an empty first cell, and so does \<open>value.replace\<close> on an empty
  price cell.
\<close>

definition arena_row :: "item \<Rightarrow> pystr list \<Rightarrow> exn + item" where
  "arena_row item cells =
     (if length cells = 2 then
        (case clean_text (Some (cells ! 0)) of
           None \<Rightarrow> Inl AttributeError
         | Some k \<Rightarrow>
             (let key = replace (str '':'') [] k;
                  val = clean_text (Some (cells ! 1))
              in if contains (str ''Unlisted Share Price'') key then
                   (case val of
                      None \<Rightarrow> Inl AttributeError
                    | Some v \<Rightarrow>
                        (case Decimal (price_cleaned v) of
                           None \<Rightarrow> Inl InvalidOperation
                         | Some d \<Rightarrow>
                             Inr (AList.update ''price_currency'' (PStr (str ''INR''))
                                   (AList.update ''last_known_price'' (PDec d) item))))
                 else if contains (str ''Sector'') key then
                   Inr (AList.update ''sector'' (of_text val) item)
                 else if contains (str ''Face Value'') key then set_face_value item (of_text val)
                 else Inr item))
      else Inr item)"

fun arena_rows :: "item \<Rightarrow> pystr list list \<Rightarrow> exn + item" where
  "arena_rows item [] = Inr item"
| "arena_rows item (r # rs) =
     (case arena_row item r of Inl e \<Rightarrow> Inl e | Inr item' \<Rightarrow> arena_rows item' rs)"

definition parse_unlistedarena_page :: "pystr \<Rightarrow> soup \<Rightarrow> item option" where
  "parse_unlistedarena_page url soup =
     (let item = [(''source_url'', PStr url), (''source_name'', PStr (str ''UnlistedArena''))]
      in case h1 soup of
           None \<Rightarrow> None
         | Some t \<Rightarrow>
             (let item1 = AList.update ''company_name'' (of_text (clean_text (Some t))) item
              in case price_table soup of
                   None \<Rightarrow> Some item1
                 | Some table_rows \<Rightarrow>
                     (case arena_rows item1 table_rows of
                        Inl e \<Rightarrow> None
                      | Inr item' \<Rightarrow> Some item')))"

section \<open>models.py: the table and the deduplication key\<close>

text \<open>
  A row of \<open>unlisted_stocks\<close>, column by column. A nullable column holds a \<open>pyval\<close>,
  \<open>PNone\<close> being SQL's \<open>NULL\<close>; \<open>id'\<close> is the column \<open>id\<close> and \<open>retrieved_at\<close> a time
  stamp, both given by the store when the row is inserted.
\<close>

record UnlistedStock =
  id' :: nat
  company_name :: pyval
  symbol :: pyval
  country :: pyval
  sector :: pyval
  status :: pyval
  last_known_price :: pyval
  price_currency :: pyval
  valuation :: pyval
  contact_info :: pyval
  additional_metadata :: pyval
  tags :: pyval
  source_url :: pyval
  source_name :: pyval
  retrieved_at :: nat
  unique_hash :: pystr

text \<open>
  \<open>hash_string.encode('utf-8')\<close>: the bytes of a string, \<open>UnicodeEncodeError\<close> on a
  surrogate (and on a number that is no code point).
\<close>

definition utf8_cp :: "nat \<Rightarrow> nat list option" where
  "utf8_cp c =
     (if c < 0x80 then Some [c]
      else if c < 0x800 then Some [0xC0 + c div 64, 0x80 + c mod 64]
      else if 0xD800 \<le> c \<and> c \<le> 0xDFFF then None
      else if c < 0x10000 then
        Some [0xE0 + c div 4096, 0x80 + (c div 64) mod 64, 0x80 + c mod 64]
      else if c < 0x110000 then
        Some [0xF0 + c div 262144, 0x80 + (c div 4096) mod 64, 0x80 + (c div 64) mod 64,
              0x80 + c mod 64]
      else None)"

fun encode_utf8 :: "pystr \<Rightarrow> exn + nat list" where
  "encode_utf8 [] = Inr []"
| "encode_utf8 (c # cs) =
     (case utf8_cp c of
        None \<Rightarrow> Inl UnicodeEncodeError
      | Some bs \<Rightarrow> (case encode_utf8 cs of Inl e \<Rightarrow> Inl e | Inr rest \<Rightarrow> Inr (bs @ rest)))"

text \<open>
  \<open>create_unique_hash\<close>. The digest \<open>hashlib.sha256(hash_bytes).hexdigest()\<close> is the
  library's: \<open>sha256_hex\<close> stands for it, any function from bytes to strings.
\<close>

definition hash_string :: "pystr \<Rightarrow> pystr \<Rightarrow> pystr" where
  "hash_string name url = lower (strip name) @ str ''||'' @ lower (strip url)"

definition create_unique_hash :: "(nat list \<Rightarrow> pystr) \<Rightarrow> pystr \<Rightarrow> pystr \<Rightarrow> exn + pystr" where
  "create_unique_hash sha256_hex name url =
     (case encode_utf8 (hash_string name url) of
        Inl e \<Rightarrow> Inl e
      | Inr hash_bytes \<Rightarrow> Inr (sha256_hex hash_bytes))"

section \<open>The store\<close>

text \<open>
  The session's view of the database: the rows of the table in the order of their
  insertion, the next \<open>id\<close>, the server's clock (\<open>func.now()\<close>), and \<open>outages\<close>, which
  says for each coming \<open>commit\<close> whether the store fails it (\<open>True\<close>); an empty list
  means that no commit fails.
\<close>

record database =
  rows :: "UnlistedStock list"
  next_id :: nat
  clock :: nat
  outages :: "bool list"

text \<open>The four lines \<open>process_and_save\<close> prints, one per way it returns.\<close>

datatype outcome = Skipped | Added | IntegrityFailure | GeneralFailure

text \<open>
  Step 2d, \<open>db.add\<close> and \<open>db.commit\<close> inside \<open>try\<close>: a failing store gives the general
  error, a violated constraint of the table (\<open>nullable=False\<close>, \<open>unique=True\<close>) the
  \<open>IntegrityError\<close>; both are caught and rolled back, so the rows stay as they were.
\<close>

definition add_commit :: "database \<Rightarrow> UnlistedStock \<Rightarrow> outcome \<times> database" where
  "add_commit db new_stock =
     (let db1 = db\<lparr>outages := tl (outages db)\<rparr>
      in if outages db \<noteq> [] \<and> hd (outages db) then (GeneralFailure, db1)
         else if company_name new_stock = PNone \<or> source_url new_stock = PNone
                 \<or> source_name new_stock = PNone
                 \<or> unique_hash new_stock \<in> set (map unique_hash (rows db))
           then (IntegrityFailure, db1)
         else (Added,
               db1\<lparr>rows := rows db @ [new_stock\<lparr>id' := next_id db, retrieved_at := clock db\<rparr>],
                   next_id := Suc (next_id db),
                   clock := Suc (clock db)\<rparr>))"

section \<open>scraper.py: process\_and\_save\<close>

text \<open>
  Step 2a. \<open>item["company_name"]\<close> and \<open>item["source_url"]\<close> raise \<open>KeyError\<close> on a
  missing key, and \<open>.strip()\<close> raises \<open>AttributeError\<close> on a value that is no string.
\<close>

definition item_hash :: "(nat list \<Rightarrow> pystr) \<Rightarrow> item \<Rightarrow> exn + pystr" where
  "item_hash sha256_hex item =
     (case map_of item ''company_name'' of
        None \<Rightarrow> Inl KeyError
      | Some n \<Rightarrow>
          (case map_of item ''source_url'' of
             None \<Rightarrow> Inl KeyError
           | Some u \<Rightarrow>
               (case n of
                  PStr name \<Rightarrow>
                    (case u of
                       PStr url \<Rightarrow> create_unique_hash sha256_hex name url
                     | _ \<Rightarrow> Inl AttributeError)
                | _ \<Rightarrow> Inl AttributeError)))"

text \<open>\<open>item.get(key)\<close> and \<open>item.get(key, default)\<close>.\<close>

definition get :: "item \<Rightarrow> string \<Rightarrow> pyval" where
  "get item k = (case map_of item k of None \<Rightarrow> PNone | Some v \<Rightarrow> v)"

definition get_default :: "item \<Rightarrow> string \<Rightarrow> pyval \<Rightarrow> pyval" where
  "get_default item k d = (case map_of item k of None \<Rightarrow> d | Some v \<Rightarrow> v)"

text \<open>
  Step 2c, the new object. The columns the call does not name stay \<open>NULL\<close>; \<open>id\<close> and
  \<open>retrieved_at\<close> are written by \<open>add_commit\<close>.
\<close>

definition new_stock :: "pystr \<Rightarrow> item \<Rightarrow> pyval \<Rightarrow> UnlistedStock" where
  "new_stock hash_id item src_name =
     \<lparr>id' = 0,
      company_name = get item ''company_name'',
      symbol = PNone,
      country = get_default item ''country'' (PStr (str ''India'')),
      sector = get item ''sector'',
      status = get_default item ''status'' (PStr (str ''Pre-IPO'')),
      last_known_price = get item ''last_known_price'',
      price_currency = get_default item ''price_currency'' (PStr (str ''INR'')),
      valuation = PNone,
      contact_info = PNone,
      additional_metadata = get item ''metadata'',
      tags = PNone,
      source_url = get item ''source_url'',
      source_name = src_name,
      retrieved_at = 0,
      unique_hash = hash_id\<rparr>"

text \<open>
  The function: an exception that leaves it is \<open>Inl\<close>; otherwise the line it printed and
  the store. Step 2b is \<open>find\<close>: the first row with this hash.
\<close>

definition process_and_save ::
  "(nat list \<Rightarrow> pystr) \<Rightarrow> database \<Rightarrow> item \<Rightarrow> exn + (outcome \<times> database)" where
  "process_and_save sha256_hex db item =
     (case item_hash sha256_hex item of
        Inl e \<Rightarrow> Inl e
      | Inr hash_id \<Rightarrow>
          (case find (\<lambda>r. unique_hash r = hash_id) (rows db) of
             Some exists \<Rightarrow> Inr (Skipped, db)
           | None \<Rightarrow>
               (case map_of item ''source_name'' of
                  None \<Rightarrow> Inl KeyError
                | Some src_name \<Rightarrow> Inr (add_commit db (new_stock hash_id item src_name)))))"

section \<open>scraper.py: run\_scrapers\<close>

text \<open>
  What a run meets outside the repository: \<open>requests.get\<close>, which answers with a status
  code and a text or raises, the HTML parser, and the digest.
\<close>

datatype http = Response int pystr | RequestFailed

record world =
  http_get :: "pystr \<Rightarrow> http"
  BeautifulSoup :: "pystr \<Rightarrow> soup"
  sha256_hex :: "nat list \<Rightarrow> pystr"

text \<open>
  A task of \<open>SCRAPER_TASKS\<close>: the dictionary with the keys \<open>source_name\<close>, \<open>url\<close> and
  \<open>parser\<close>.
\<close>

record task =
  task_source_name :: pystr
  task_url :: pystr
  task_parser :: "pystr \<Rightarrow> soup \<Rightarrow> item option"

definition SCRAPER_TASKS :: "task list" where
  "SCRAPER_TASKS =
     [\<lparr>task_source_name = str ''UnlistedZone'',
       task_url = str ''https://unlistedzone.com/shares/buy-sell-hdb-financial-services-unlisted-shares-hdb-finance-share-price'',
       task_parser = parse_unlistedzone_page\<rparr>,
      \<lparr>task_source_name = str ''UnlistedArena'',
       task_url = str ''https://www.unlistedarena.com/unlisted-shares-list/buy-tata-capital-unlisted-shares/'',
       task_parser = parse_unlistedarena_page\<rparr>]"

text \<open>
  What one turn of the loop printed: the line of \<open>process_and_save\<close>, nothing more when
  the parser gave no data, the status code that was not 200, or the exception the
  \<open>except Exception\<close> of the loop caught.
\<close>

datatype task_outcome = Saved outcome | NoData | BadStatus int | Caught exn

definition run_task :: "world \<Rightarrow> database \<Rightarrow> task \<Rightarrow> task_outcome \<times> database" where
  "run_task w db t =
     (case http_get w (task_url t) of
        RequestFailed \<Rightarrow> (Caught RequestException, db)
      | Response status_code text \<Rightarrow>
          if status_code = 200 then
            (case task_parser t (task_url t) (BeautifulSoup w text) of
               None \<Rightarrow> (NoData, db)
             | Some scraped_data \<Rightarrow>
                 if scraped_data = [] then (NoData, db)
                 else (case process_and_save (sha256_hex w) db scraped_data of
                         Inl e \<Rightarrow> (Caught e, db)
                       | Inr (out, db') \<Rightarrow> (Saved out, db')))
          else (BadStatus status_code, db))"

fun run_tasks :: "world \<Rightarrow> database \<Rightarrow> task list \<Rightarrow> task_outcome list \<times> database" where
  "run_tasks w db [] = ([], db)"
| "run_tasks w db (t # ts) =
     (case run_task w db t of
        (out, db') \<Rightarrow> (case run_tasks w db' ts of (outs, db'') \<Rightarrow> (out # outs, db'')))"

definition run_scrapers :: "world \<Rightarrow> database \<Rightarrow> task_outcome list \<times> database" where
  "run_scrapers w db = run_tasks w db SCRAPER_TASKS"

section \<open>main.py: the queries\<close>

text \<open>
  \<open>order_by(UnlistedStock.retrieved_at.desc())\<close>. SQL leaves the order of rows with the
  same time stamp open; the model takes one such order, and no theorem rests on which.
\<close>

definition order_by_retrieved_at_desc :: "UnlistedStock list \<Rightarrow> UnlistedStock list" where
  "order_by_retrieved_at_desc rs = rev (sort_key retrieved_at rs)"



text \<open>
  SQL's \<open>LIKE\<close> of a pattern and a text: \<open>%\<close> (37) stands for any text, \<open>_\<close> (95) for any
  one code point, and the backslash (92) makes the next code point of the pattern stand
  for itself. A pattern that ends in a lone backslash is refused by the store; no pattern
  of \<open>search_listings\<close> does, as each ends in \<open>%\<close>. \<open>ILIKE\<close> compares without regard to
  case, and a \<open>NULL\<close> matches nothing.
\<close>

fun like :: "pystr \<Rightarrow> pystr \<Rightarrow> bool" where
  "like [] t = (t = [])"
| "like (p # ps) [] = (p = 37 \<and> like ps [])"
| "like (p # ps) (c # cs) =
     (if p = 37 then like ps (c # cs) \<or> like (p # ps) cs
      else if p = 95 then like ps cs
      else if p = 92 then (case ps of [] \<Rightarrow> False | q # qs \<Rightarrow> c = q \<and> like qs cs)
      else p = c \<and> like ps cs)"

definition ilike :: "pyval \<Rightarrow> pystr \<Rightarrow> bool" where
  "ilike col pattern = (case col of PStr s \<Rightarrow> like (lower pattern) (lower s) | _ \<Rightarrow> False)"

definition search_listings :: "pystr \<Rightarrow> database \<Rightarrow> UnlistedStock list" where
  "search_listings q db =
     (if q = [] then []
      else (let search_term = str ''%'' @ q @ str ''%''
            in take 25 (order_by_retrieved_at_desc
                          (filter (\<lambda>r. ilike (company_name r) search_term) (rows db)))))"

section \<open>An example world\<close>

text \<open>
  Three tasks to run the scraper on: a page of the first source, a page whose server
  answers with the status 500, and a page of the second source. The digest of the
  example is the identity on the bytes, and the store starts empty.
\<close>

definition demo_world :: world where
  "demo_world =
     \<lparr>http_get = (\<lambda>u. if u = str ''http://a/1'' then Response 200 (str ''page one'')
                       else if u = str ''http://b/2'' then Response 500 []
                       else Response 200 (str ''page three'')),
      BeautifulSoup = (\<lambda>t. if t = str ''page one''
                            then \<lparr>h1 = Some (str ''Acme''),
                                  strong_tags = [(str ''Sector'', Some (str ''Finance''))],
                                  price_table = None\<rparr>
                            else \<lparr>h1 = Some (str ''Tata''), strong_tags = [],
                                  price_table = Some [[str ''Sector'', str ''Tech'']]\<rparr>),
      sha256_hex = (\<lambda>b. b)\<rparr>"

definition demo_zone :: task where
  "demo_zone = \<lparr>task_source_name = str ''UnlistedZone'', task_url = str ''http://a/1'',
                task_parser = parse_unlistedzone_page\<rparr>"

definition demo_down :: task where
  "demo_down = \<lparr>task_source_name = str ''UnlistedArena'', task_url = str ''http://b/2'',
                task_parser = parse_unlistedarena_page\<rparr>"

definition demo_arena :: task where
  "demo_arena = \<lparr>task_source_name = str ''UnlistedArena'', task_url = str ''http://c/3'',
                 task_parser = parse_unlistedarena_page\<rparr>"

definition empty_store :: database where
  "empty_store = \<lparr>rows = [], next_id = 1, clock = 0, outages = []\<rparr>"



section \<open>Facts about the string operations\<close>

lemma replace_char: "replace [a] new s = concat (map (\<lambda>c. if c = a then new else [c]) s)"
proof (induction s)
  case Nil
  show ?case by (simp add: replace.simps)
next
  case (Cons x xs)
  show ?case
  proof (cases "x = a")
    case True
    have "replace [a] new (x # xs) = new @ replace [a] new xs"
      using True by (subst replace.simps) simp
    then show ?thesis using True Cons.IH by simp
  next
    case False
    have "replace [a] new (x # xs) = x # replace [a] new xs"
      using False by (subst replace.simps) simp
    then show ?thesis using False Cons.IH by simp
  qed
qed

lemma replace_single: "replace [a] [b] s = map (\<lambda>c. if c = a then b else c) s"
  by (induction s) (simp_all add: replace_char)

text \<open>The equations that evaluate the string functions on a given text.\<close>

lemmas string_eval =
  str_def rupee_def strip_def isspace_def replace_char lower_def lower_cp_def clean_text_def
  of_text_def isdigit_def digits_value_def take_sign_def dec_exponent_def dec_number_def
  Decimal_def price_cleaned_def

lemma strip_no_leading_space: "strip s \<noteq> [] \<Longrightarrow> \<not> isspace (hd (strip s))"
proof -
  assume ne: "strip s \<noteq> []"
  let ?d = "dropWhile isspace s"
  have strip_eq: "strip s = rev (dropWhile isspace (rev ?d))"
    by (simp add: strip_def)
  have d_ne: "?d \<noteq> []"
  proof
    assume e: "?d = []"
    have "strip s = []" unfolding strip_def e by simp
    with ne show False by simp
  qed
  then have hd_d: "\<not> isspace (hd ?d)" by (rule hd_dropWhile)
  have "?d = rev (dropWhile isspace (rev ?d)) @ rev (takeWhile isspace (rev ?d))"
    by (metis rev_append rev_rev_ident takeWhile_dropWhile_id)
  then have "?d = strip s @ rev (takeWhile isspace (rev ?d))"
    using strip_eq by simp
  then have "hd ?d = hd (strip s)" using ne by (metis hd_append2)
  with hd_d show ?thesis by simp
qed

lemma strip_no_trailing_space: "strip s \<noteq> [] \<Longrightarrow> \<not> isspace (last (strip s))"
proof -
  assume ne: "strip s \<noteq> []"
  let ?r = "dropWhile isspace (rev (dropWhile isspace s))"
  have strip_eq: "strip s = rev ?r" by (simp add: strip_def)
  with ne have "?r \<noteq> []" by simp
  then have "\<not> isspace (hd ?r)" by (rule hd_dropWhile)
  moreover have "last (strip s) = hd ?r"
    using strip_eq \<open>?r \<noteq> []\<close> by (simp add: last_rev)
  ultimately show ?thesis by simp
qed

lemma contains_nonempty: "contains sub t \<Longrightarrow> sub \<noteq> [] \<Longrightarrow> t \<noteq> []"
  by (cases t) simp_all

lemma labels_nonempty: "str ''Buy Price'' \<noteq> []" "str ''Status'' \<noteq> []"
  by (simp_all add: str_def)






section \<open>clean\_text: what becomes of line breaks\<close>

lemma clean_text_Some:
  "s \<noteq> [] \<Longrightarrow>
   clean_text (Some s) = Some (map (\<lambda>c. if c = 10 \<or> c = 13 then 32 else c) (strip s))"
  by (simp add: clean_text_def replace_single)

lemma clean_text_ends:
  assumes "clean_text (Some s) = Some t" and "t \<noteq> []"
  shows "\<not> isspace (hd t) \<and> \<not> isspace (last t)"
proof -
  let ?f = "\<lambda>c::nat. if c = 10 \<or> c = 13 then 32 else c"
  from assms(1) have s_ne: "s \<noteq> []"
    by (auto simp: clean_text_def split: if_splits)
  then have t_eq: "t = map ?f (strip s)"
    using assms(1) by (simp add: clean_text_Some)
  with assms(2) have strip_ne: "strip s \<noteq> []" by auto
  have keep: "\<not> isspace c \<Longrightarrow> ?f c = c" for c
    by (auto simp: isspace_def)
  have h: "\<not> isspace (hd (strip s))" by (rule strip_no_leading_space [OF strip_ne])
  have l: "\<not> isspace (last (strip s))" by (rule strip_no_trailing_space [OF strip_ne])
  have "hd t = ?f (hd (strip s))" using t_eq strip_ne by (simp add: hd_map)
  then have "hd t = hd (strip s)" using keep [OF h] by simp
  moreover have "last t = ?f (last (strip s))" using t_eq strip_ne by (simp add: last_map)
  then have "last t = last (strip s)" using keep [OF l] by simp
  ultimately show ?thesis using h l by simp
qed

text \<open>
  Claim C5, as the code has it. \<open>clean_text\<close> gives \<open>None\<close> for \<open>None\<close> and for the empty
  string. For any other string it trims the whitespace of both ends and then puts one
  space in the place of every single line feed and carriage return, so a run of \<open>k\<close> such
  code points becomes \<open>k\<close> spaces and the length of the trimmed string is kept. A result
  that is not empty starts and ends with a code point that is no whitespace.
\<close>

theorem clean_text_replaces_each_line_break:
  "clean_text None = None \<and>
   clean_text (Some s) =
     (if s = [] then None
      else Some (map (\<lambda>c. if c = 10 \<or> c = 13 then 32 else c) (strip s))) \<and>
   (\<forall>t. clean_text (Some s) = Some t \<and> t \<noteq> [] \<longrightarrow> \<not> isspace (hd t) \<and> \<not> isspace (last t))"
proof -
  have "clean_text None = None" by (simp add: clean_text_def)
  moreover have "clean_text (Some s) =
     (if s = [] then None
      else Some (map (\<lambda>c. if c = 10 \<or> c = 13 then 32 else c) (strip s)))"
    by (cases "s = []") (simp_all add: clean_text_Some, simp add: clean_text_def)
  moreover have "\<forall>t. clean_text (Some s) = Some t \<and> t \<noteq> [] \<longrightarrow>
      \<not> isspace (hd t) \<and> \<not> isspace (last t)"
    using clean_text_ends by blast
  ultimately show ?thesis by blast
qed

theorem clean_text_replaces_each_line_break_witness:
  "clean_text (Some (str '' a'' @ [13, 10] @ str ''b  '')) = Some (str ''a  b'') \<and>
   \<not> isspace (hd (str ''a  b'')) \<and> \<not> isspace (last (str ''a  b''))"
proof -
  have e: "clean_text (Some (str '' a'' @ [13, 10] @ str ''b  '')) = Some (str ''a  b'')"
    by (simp add: string_eval)
  have "str ''a  b'' \<noteq> []" by (simp add: str_def)
  with e clean_text_replaces_each_line_break [of "str '' a'' @ [13, 10] @ str ''b  ''"]
  show ?thesis by blast
qed

text \<open>
  The claim as the specification words it fails: the run of a carriage return and a line
  feed between \<open>a\<close> and \<open>b\<close> comes out as two spaces, not as one.
\<close>

theorem clean_text_run_counterexample:
  "clean_text (Some (str ''a'' @ [13, 10] @ str ''b'')) = Some (str ''a  b'') \<and>
   clean_text (Some (str ''a'' @ [13, 10] @ str ''b'')) \<noteq> Some (str ''a b'')"
  by (simp add: string_eval)

section \<open>search\_listings: the empty query\<close>

text \<open>
  Claim C10. For the empty query string \<open>search_listings\<close> returns the empty list,
  whatever the store holds: the store is not asked.
\<close>

theorem search_listings_empty_query:
  "search_listings [] db = []"
  by (simp add: search_listings_def)

section \<open>create\_unique\_hash: case and surrounding whitespace\<close>




section \<open>parse\_unlistedzone\_page: the price\<close>

lemma price_text_parses:
  "clean_text (Some (rupee @ str '' 1,234.50'')) = Some (rupee @ str '' 1,234.50'') \<and>
   Decimal (price_cleaned (rupee @ str '' 1,234.50'')) = Some (DecFinite False 123450 (- 2))"
  by (simp add: string_eval)

lemma zone_price_rupee:
  "zone_price item (Some (rupee @ str '' 1,234.50'')) =
     Inr (AList.update ''price_currency'' (PStr (str ''INR''))
           (AList.update ''last_known_price'' (PDec (DecFinite False 123450 (- 2))) item))"
  using price_text_parses by (simp add: zone_price_def)

text \<open>
  Claim C6. A page with a heading and one \<open>strong\<close> tag whose cleaned text contains
  \<open>Buy Price\<close>, followed by the text of the rupee sign, a space and \<open>1,234.50\<close>, yields an
  item whose \<open>last_known_price\<close> is the decimal 1234.50 (coefficient 123450, exponent
  \<open>-2\<close>) and whose \<open>price_currency\<close> is \<open>INR\<close>.
\<close>

theorem zone_price_normalization:
  "clean_text (Some label) = Some tag_text \<and> contains (str ''Buy Price'') tag_text \<longrightarrow>
   (\<exists>item. parse_unlistedzone_page url
        \<lparr>h1 = Some t, strong_tags = [(label, Some (rupee @ str '' 1,234.50''))],
         price_table = pt\<rparr> = Some item \<and>
      map_of item ''last_known_price'' = Some (PDec (DecFinite False 123450 (- 2))) \<and>
      map_of item ''price_currency'' = Some (PStr (str ''INR'')))"
proof
  assume a: "clean_text (Some label) = Some tag_text \<and> contains (str ''Buy Price'') tag_text"
  then have "tag_text \<noteq> []"
    using contains_nonempty [OF _ labels_nonempty(1)] by blast
  with a show "\<exists>item. parse_unlistedzone_page url
        \<lparr>h1 = Some t, strong_tags = [(label, Some (rupee @ str '' 1,234.50''))],
         price_table = pt\<rparr> = Some item \<and>
      map_of item ''last_known_price'' = Some (PDec (DecFinite False 123450 (- 2))) \<and>
      map_of item ''price_currency'' = Some (PStr (str ''INR''))"
    by (simp add: parse_unlistedzone_page_def zone_tag_def zone_price_rupee Let_def update_conv')
qed

theorem zone_price_normalization_witness:
  "\<exists>item. parse_unlistedzone_page (str ''http://x/a'')
        \<lparr>h1 = Some (str ''Acme''), strong_tags = [(str ''Buy Price'', Some (rupee @ str '' 1,234.50''))],
         price_table = None\<rparr> = Some item \<and>
      map_of item ''last_known_price'' = Some (PDec (DecFinite False 123450 (- 2))) \<and>
      map_of item ''price_currency'' = Some (PStr (str ''INR''))"
proof -
  have "clean_text (Some (str ''Buy Price'')) = Some (str ''Buy Price'') \<and>
        contains (str ''Buy Price'') (str ''Buy Price'')"
    by (simp add: string_eval)
  then show ?thesis
    using zone_price_normalization [of "str ''Buy Price''" "str ''Buy Price''"] by blast
qed

section \<open>Both parsers: a price that is no number\<close>

lemma zone_tag_price_fails:
  assumes "clean_text (Some label) = Some tag_text"
    and "contains (str ''Buy Price'') tag_text"
    and "clean_text sibling = Some price_str"
    and "Decimal (price_cleaned price_str) = None"
  shows "zone_tag item (label, sibling) = Inl InvalidOperation"
  using assms contains_nonempty [OF assms(2) labels_nonempty(1)]
  by (simp add: zone_tag_def zone_price_def)

lemma zone_tags_fail:
  assumes "tag \<in> set ts" and "\<And>item. zone_tag item tag = Inl e"
  shows "\<exists>e'. zone_tags item ts = Inl e'"
  using assms(1)
proof (induction ts arbitrary: item)
  case Nil
  then show ?case by simp
next
  case (Cons t ts)
  show ?case
  proof (cases "zone_tag item t")
    case (Inl a)
    then show ?thesis by simp
  next
    case (Inr item')
    then have "t \<noteq> tag" using assms(2) [of item] by auto
    with Cons.prems have "tag \<in> set ts" by simp
    from Cons.IH [OF this] Inr show ?thesis by simp
  qed
qed

lemma arena_row_price_fails:
  assumes "clean_text (Some k) = Some key_text"
    and "contains (str ''Unlisted Share Price'') (replace (str '':'') [] key_text)"
    and "clean_text (Some v) = Some val"
    and "Decimal (price_cleaned val) = None"
  shows "arena_row item [k, v] = Inl InvalidOperation"
  using assms by (simp add: arena_row_def Let_def)

lemma arena_rows_fail:
  assumes "r \<in> set rs" and "\<And>item. arena_row item r = Inl e"
  shows "\<exists>e'. arena_rows item rs = Inl e'"
  using assms(1)
proof (induction rs arbitrary: item)
  case Nil
  then show ?case by simp
next
  case (Cons x xs)
  show ?case
  proof (cases "arena_row item x")
    case (Inl a)
    then show ?thesis by simp
  next
    case (Inr item')
    then have "x \<noteq> r" using assms(2) [of item] by auto
    with Cons.prems have "r \<in> set xs" by simp
    from Cons.IH [OF this] Inr show ?thesis by simp
  qed
qed

text \<open>
  Claim C3, as the code has it. When the price field is there (a \<open>strong\<close> tag whose
  cleaned text contains \<open>Buy Price\<close> and is followed by a text; a table row of two cells
  whose key contains \<open>Unlisted Share Price\<close>) and \<open>Decimal\<close> refuses its cleaned text,
  the parser returns \<open>None\<close>: the \<open>except\<close> around the whole body catches the
  \<open>InvalidOperation\<close>, and no item is returned. Both parsers do the same.
\<close>

theorem unparseable_price_is_fatal:
  "((label, sibling) \<in> set (strong_tags soup) \<and> clean_text (Some label) = Some tag_text \<and>
    contains (str ''Buy Price'') tag_text \<and> clean_text sibling = Some price_str \<and>
    Decimal (price_cleaned price_str) = None \<longrightarrow>
      parse_unlistedzone_page url soup = None) \<and>
   (price_table soup' = Some table_rows \<and> [k, v] \<in> set table_rows \<and>
    clean_text (Some k) = Some key_text \<and>
    contains (str ''Unlisted Share Price'') (replace (str '':'') [] key_text) \<and>
    clean_text (Some v) = Some val \<and> Decimal (price_cleaned val) = None \<longrightarrow>
      parse_unlistedarena_page url' soup' = None)"
proof (intro conjI impI)
  assume a: "(label, sibling) \<in> set (strong_tags soup) \<and> clean_text (Some label) = Some tag_text \<and>
    contains (str ''Buy Price'') tag_text \<and> clean_text sibling = Some price_str \<and>
    Decimal (price_cleaned price_str) = None"
  then have f: "\<And>item. zone_tag item (label, sibling) = Inl InvalidOperation"
    by (simp add: zone_tag_price_fails)
  from a have m: "(label, sibling) \<in> set (strong_tags soup)" by simp
  show "parse_unlistedzone_page url soup = None"
  proof (cases "h1 soup")
    case None
    then show ?thesis by (simp add: parse_unlistedzone_page_def)
  next
    case (Some t)
    from zone_tags_fail [OF m f] obtain e' where
      "zone_tags (AList.update ''company_name'' (of_text (clean_text (Some t)))
          [(''source_url'', PStr url), (''source_name'', PStr (str ''UnlistedZone''))])
        (strong_tags soup) = Inl e'"
      by blast
    with Some show ?thesis by (simp add: parse_unlistedzone_page_def)
  qed
next
  assume a: "price_table soup' = Some table_rows \<and> [k, v] \<in> set table_rows \<and>
    clean_text (Some k) = Some key_text \<and>
    contains (str ''Unlisted Share Price'') (replace (str '':'') [] key_text) \<and>
    clean_text (Some v) = Some val \<and> Decimal (price_cleaned val) = None"
  then have f: "\<And>item. arena_row item [k, v] = Inl InvalidOperation"
    by (simp add: arena_row_price_fails)
  from a have m: "[k, v] \<in> set table_rows" and pt: "price_table soup' = Some table_rows"
    by simp_all
  show "parse_unlistedarena_page url' soup' = None"
  proof (cases "h1 soup'")
    case None
    then show ?thesis by (simp add: parse_unlistedarena_page_def)
  next
    case (Some t)
    from arena_rows_fail [OF m f] obtain e' where
      "arena_rows (AList.update ''company_name'' (of_text (clean_text (Some t)))
          [(''source_url'', PStr url'), (''source_name'', PStr (str ''UnlistedArena''))])
        table_rows = Inl e'"
      by blast
    with Some pt show ?thesis by (simp add: parse_unlistedarena_page_def Let_def)
  qed
qed

theorem unparseable_price_is_fatal_witness:
  "parse_unlistedzone_page (str ''http://x/a'')
     \<lparr>h1 = Some (str ''Acme''),
      strong_tags = [(str ''Buy Price:'', Some (str ''Rs. 100''))],
      price_table = None\<rparr> = None \<and>
   parse_unlistedarena_page (str ''http://y/b'')
     \<lparr>h1 = Some (str ''Acme''), strong_tags = [],
      price_table = Some [[str ''Unlisted Share Price:'', str ''Rs. 100'']]\<rparr> = None"
proof -
  have z: "clean_text (Some (str ''Buy Price:'')) = Some (str ''Buy Price:'') \<and>
      contains (str ''Buy Price'') (str ''Buy Price:'') \<and>
      clean_text (Some (str ''Rs. 100'')) = Some (str ''Rs. 100'') \<and>
      Decimal (price_cleaned (str ''Rs. 100'')) = None"
    by (simp add: string_eval)
  have a: "clean_text (Some (str ''Unlisted Share Price:'')) = Some (str ''Unlisted Share Price:'') \<and>
      contains (str ''Unlisted Share Price'') (replace (str '':'') [] (str ''Unlisted Share Price:''))"
    by (simp add: string_eval)
  show ?thesis
    using z a
      unparseable_price_is_fatal
        [where label = "str ''Buy Price:''" and sibling = "Some (str ''Rs. 100'')"
           and tag_text = "str ''Buy Price:''" and price_str = "str ''Rs. 100''"
           and soup = "\<lparr>h1 = Some (str ''Acme''),
                         strong_tags = [(str ''Buy Price:'', Some (str ''Rs. 100''))],
                         price_table = None\<rparr>"
           and url = "str ''http://x/a''"
           and soup' = "\<lparr>h1 = Some (str ''Acme''), strong_tags = [],
                          price_table = Some [[str ''Unlisted Share Price:'', str ''Rs. 100'']]\<rparr>"
           and table_rows = "[[str ''Unlisted Share Price:'', str ''Rs. 100'']]"
           and k = "str ''Unlisted Share Price:''" and v = "str ''Rs. 100''"
           and key_text = "str ''Unlisted Share Price:''" and val = "str ''Rs. 100''"
           and url' = "str ''http://y/b''"]
    by simp
qed

text \<open>
  The claim as the specification words it fails. A page with a heading, a sector and a
  price text \<open>N/A\<close> gives no item at all, for either parser, while the same page without
  the price field gives the item with its sector.
\<close>

theorem unparseable_price_counterexample:
  "parse_unlistedzone_page (str ''http://x/a'')
     \<lparr>h1 = Some (str ''Acme''),
      strong_tags = [(str ''Sector'', Some (str ''Finance'')), (str ''Buy Price'', Some (str ''N/A''))],
      price_table = None\<rparr> = None \<and>
   parse_unlistedarena_page (str ''http://y/b'')
     \<lparr>h1 = Some (str ''Acme''), strong_tags = [],
      price_table = Some [[str ''Sector'', str ''Finance''],
                          [str ''Unlisted Share Price:'', str ''N/A'']]\<rparr> = None \<and>
   parse_unlistedzone_page (str ''http://x/a'')
     \<lparr>h1 = Some (str ''Acme''),
      strong_tags = [(str ''Sector'', Some (str ''Finance''))],
      price_table = None\<rparr> =
     Some [(''source_url'', PStr (str ''http://x/a'')),
           (''source_name'', PStr (str ''UnlistedZone'')),
           (''company_name'', PStr (str ''Acme'')), (''sector'', PStr (str ''Finance''))]"
  by (simp add: parse_unlistedzone_page_def zone_tag_def zone_price_def
        parse_unlistedarena_page_def arena_row_def Let_def string_eval)

section \<open>process\_and\_save: the defaults\<close>

text \<open>The equations that evaluate \<open>process_and_save\<close> on a given store and item.\<close>

lemmas store_eval =
  process_and_save_def item_hash_def create_unique_hash_def hash_string_def utf8_cp_def
  add_commit_def new_stock_def get_def get_default_def Let_def

lemma process_and_save_Added:
  assumes "process_and_save H db item = Inr (Added, db')"
  shows "\<exists>hash_id src_name.
           rows db' = rows db @ [(new_stock hash_id item src_name)
                                   \<lparr>id' := next_id db, retrieved_at := clock db\<rparr>]"
  using assms
  apply (auto simp: process_and_save_def add_commit_def Let_def
           split: sum.splits option.splits if_splits)
  apply blast+
  done

text \<open>
  Claim C7. When \<open>process_and_save\<close> adds a listing, the new row is the last row of the
  store, and for each of \<open>status\<close>, \<open>price_currency\<close> and \<open>country\<close>: if the item has no
  such key the row holds the default (\<open>Pre-IPO\<close>, \<open>INR\<close>, \<open>India\<close>), and if the item has
  the key the row holds the item's value, never the default.
\<close>

theorem persistence_defaults:
  "process_and_save H db item = Inr (Added, db') \<longrightarrow>
   (\<exists>r. rows db' = rows db @ [r] \<and>
      status r = (case map_of item ''status'' of None \<Rightarrow> PStr (str ''Pre-IPO'') | Some v \<Rightarrow> v) \<and>
      price_currency r =
        (case map_of item ''price_currency'' of None \<Rightarrow> PStr (str ''INR'') | Some v \<Rightarrow> v) \<and>
      country r = (case map_of item ''country'' of None \<Rightarrow> PStr (str ''India'') | Some v \<Rightarrow> v))"
proof
  assume "process_and_save H db item = Inr (Added, db')"
  from process_and_save_Added [OF this] obtain hash_id src_name where
    "rows db' = rows db @ [(new_stock hash_id item src_name)
                             \<lparr>id' := next_id db, retrieved_at := clock db\<rparr>]"
    by blast
  then show "\<exists>r. rows db' = rows db @ [r] \<and>
      status r = (case map_of item ''status'' of None \<Rightarrow> PStr (str ''Pre-IPO'') | Some v \<Rightarrow> v) \<and>
      price_currency r =
        (case map_of item ''price_currency'' of None \<Rightarrow> PStr (str ''INR'') | Some v \<Rightarrow> v) \<and>
      country r = (case map_of item ''country'' of None \<Rightarrow> PStr (str ''India'') | Some v \<Rightarrow> v)"
    by (simp add: new_stock_def get_default_def)
qed

theorem persistence_defaults_witness:
  "\<exists>db' r. process_and_save (\<lambda>b. b) \<lparr>rows = [], next_id = 1, clock = 7, outages = []\<rparr>
       [(''source_url'', PStr (str ''http://x/a'')), (''source_name'', PStr (str ''Zone'')),
        (''company_name'', PStr (str ''Acme'')), (''price_currency'', PStr (str ''USD''))]
       = Inr (Added, db') \<and>
     rows db' = [r] \<and> status r = PStr (str ''Pre-IPO'') \<and> price_currency r = PStr (str ''USD'') \<and>
     country r = PStr (str ''India'')"
proof -
  let ?db = "\<lparr>rows = [], next_id = 1, clock = 7, outages = []\<rparr>"
  let ?item = "[(''source_url'', PStr (str ''http://x/a'')), (''source_name'', PStr (str ''Zone'')),
        (''company_name'', PStr (str ''Acme'')), (''price_currency'', PStr (str ''USD''))]"
  obtain db' where run: "process_and_save (\<lambda>b. b) ?db ?item = Inr (Added, db')"
    by (simp add: store_eval string_eval)
  from persistence_defaults [of "\<lambda>b. b" ?db ?item db'] run
  obtain r where "rows db' = [r]" "status r = PStr (str ''Pre-IPO'')"
    "price_currency r = PStr (str ''USD'')" "country r = PStr (str ''India'')"
    by auto
  with run show ?thesis by blast
qed

section \<open>process\_and\_save: a key that is present with the value None\<close>

lemma zone_tag_status_none:
  assumes "clean_text (Some label) = Some tag_text"
    and "contains (str ''Status'') tag_text"
    and "\<not> contains (str ''Buy Price'') tag_text"
    and "clean_text sibling = None"
  shows "\<exists>item'. zone_tag item (label, sibling) = Inr item' \<and> map_of item' ''status'' = Some PNone"
  using assms contains_nonempty [OF assms(2) labels_nonempty(2)]
  by (simp add: zone_tag_def Let_def of_text_def update_conv')

text \<open>
  Claim C9. A \<open>strong\<close> tag whose cleaned text contains \<open>Status\<close> and whose next text is
  missing or empty makes the parser store \<open>None\<close> under the key \<open>status\<close>. An item in
  which \<open>status\<close>, \<open>price_currency\<close> or \<open>country\<close> is present with the value \<open>None\<close> is
  persisted with a null in that column: the default applies to a missing key only.
\<close>

theorem present_none_is_persisted_as_null:
  "(clean_text (Some label) = Some tag_text \<and> contains (str ''Status'') tag_text \<and>
    \<not> contains (str ''Buy Price'') tag_text \<and> clean_text sibling = None \<longrightarrow>
      (\<exists>item'. zone_tag item (label, sibling) = Inr item' \<and>
               map_of item' ''status'' = Some PNone)) \<and>
   (process_and_save H db scraped = Inr (Added, db') \<longrightarrow>
      (\<exists>r. rows db' = rows db @ [r] \<and>
         (map_of scraped ''status'' = Some PNone \<longrightarrow> status r = PNone) \<and>
         (map_of scraped ''price_currency'' = Some PNone \<longrightarrow> price_currency r = PNone) \<and>
         (map_of scraped ''country'' = Some PNone \<longrightarrow> country r = PNone)))"
proof (intro conjI impI)
  assume "clean_text (Some label) = Some tag_text \<and> contains (str ''Status'') tag_text \<and>
    \<not> contains (str ''Buy Price'') tag_text \<and> clean_text sibling = None"
  then have a: "clean_text (Some label) = Some tag_text"
    and b: "contains (str ''Status'') tag_text"
    and c: "\<not> contains (str ''Buy Price'') tag_text"
    and d: "clean_text sibling = None"
    by simp_all
  show "\<exists>item'. zone_tag item (label, sibling) = Inr item' \<and>
               map_of item' ''status'' = Some PNone"
    by (rule zone_tag_status_none [OF a b c d])
next
  assume "process_and_save H db scraped = Inr (Added, db')"
  from process_and_save_Added [OF this] obtain hash_id src_name where
    "rows db' = rows db @ [(new_stock hash_id scraped src_name)
                             \<lparr>id' := next_id db, retrieved_at := clock db\<rparr>]"
    by blast
  then show "\<exists>r. rows db' = rows db @ [r] \<and>
         (map_of scraped ''status'' = Some PNone \<longrightarrow> status r = PNone) \<and>
         (map_of scraped ''price_currency'' = Some PNone \<longrightarrow> price_currency r = PNone) \<and>
         (map_of scraped ''country'' = Some PNone \<longrightarrow> country r = PNone)"
    by (simp add: new_stock_def get_default_def)
qed

theorem present_none_is_persisted_as_null_witness:
  "\<exists>scraped db' r.
     parse_unlistedzone_page (str ''http://x/a'')
       \<lparr>h1 = Some (str ''Acme''), strong_tags = [(str ''Status:'', None)], price_table = None\<rparr>
       = Some scraped \<and>
     map_of scraped ''status'' = Some PNone \<and>
     process_and_save (\<lambda>b. b) \<lparr>rows = [], next_id = 1, clock = 7, outages = []\<rparr> scraped
       = Inr (Added, db') \<and>
     rows db' = [r] \<and> status r = PNone"
proof -
  let ?db = "\<lparr>rows = [], next_id = 1, clock = 7, outages = []\<rparr>"
  let ?scraped = "[(''source_url'', PStr (str ''http://x/a'')),
                   (''source_name'', PStr (str ''UnlistedZone'')),
                   (''company_name'', PStr (str ''Acme'')), (''status'', PNone)]"
  have parse: "parse_unlistedzone_page (str ''http://x/a'')
       \<lparr>h1 = Some (str ''Acme''), strong_tags = [(str ''Status:'', None)], price_table = None\<rparr>
       = Some ?scraped"
    by (simp add: parse_unlistedzone_page_def zone_tag_def string_eval)
  have st: "map_of ?scraped ''status'' = Some PNone" by simp
  obtain db' where run: "process_and_save (\<lambda>b. b) ?db ?scraped = Inr (Added, db')"
    by (simp add: store_eval string_eval)
  note null = present_none_is_persisted_as_null
         [where H = "\<lambda>b. b" and db = ?db and scraped = ?scraped and db' = db',
          THEN conjunct2, THEN mp, OF run]
  with st obtain r where "rows db' = [r]" "status r = PNone"
    by auto
  with parse st run show ?thesis by blast
qed

section \<open>run\_scrapers: one task's failure\<close>

text \<open>The equations that evaluate a run on the example world.\<close>

lemmas run_eval =
  run_task_def parse_unlistedzone_page_def parse_unlistedarena_page_def zone_tag_def
  zone_price_def arena_row_def demo_world_def demo_zone_def demo_down_def demo_arena_def
  empty_store_def

lemma run_tasks_append:
  "run_tasks w db (pre @ post) =
     (case run_tasks w db pre of
        (outs_pre, db_pre) \<Rightarrow> (case run_tasks w db_pre post of (outs_post, db_t) \<Rightarrow> (outs_pre @ outs_post, db_t)))"
  by (induction pre arbitrary: db) (auto split: prod.splits)







section \<open>run\_scrapers: running twice\<close>

lemma find_hash_None:
  "find (\<lambda>r. unique_hash r = k) rs = None \<longleftrightarrow> k \<notin> unique_hash ` set rs"
  by (auto simp: find_None_iff)

lemma process_and_save_present:
  assumes "item_hash H item = Inr k" and "k \<in> unique_hash ` set (rows d)"
  shows "process_and_save H d item = Inr (Skipped, d)"
proof -
  from assms(2) have "find (\<lambda>r. unique_hash r = k) (rows d) \<noteq> None"
    by (simp add: find_hash_None)
  then obtain r where "find (\<lambda>r. unique_hash r = k) (rows d) = Some r" by auto
  with assms(1) show ?thesis by (simp add: process_and_save_def)
qed

lemma add_commit_cases:
  assumes "add_commit db s = (out, db')" and "outages db = []"
  shows "outages db' = [] \<and>
         (out = Added \<and> rows db' = rows db @ [s\<lparr>id' := next_id db, retrieved_at := clock db\<rparr>]
            \<and> unique_hash s \<notin> unique_hash ` set (rows db)
          \<or> out = IntegrityFailure \<and> db' = db \<and>
             (company_name s = PNone \<or> source_url s = PNone \<or> source_name s = PNone
              \<or> unique_hash s \<in> unique_hash ` set (rows db)))"
  using assms by (auto simp: add_commit_def Let_def split: if_splits)

lemma add_commit_integrity:
  assumes "outages d = []"
    and "company_name s = PNone \<or> source_url s = PNone \<or> source_name s = PNone"
  shows "add_commit d s = (IntegrityFailure, d)"
  using assms by (auto simp: add_commit_def Let_def)

text \<open>What one task does to the store, when no commit fails.\<close>

lemma process_and_save_step:
  assumes "process_and_save H db item = Inr (out, db')" and "outages db = []"
  shows "outages db' = [] \<and> unique_hash ` set (rows db) \<subseteq> unique_hash ` set (rows db') \<and>
         (distinct (map unique_hash (rows db)) \<longrightarrow> distinct (map unique_hash (rows db')))"
  using assms
  by (auto simp: process_and_save_def find_hash_None
           split: sum.splits option.splits dest!: add_commit_cases)

lemma run_task_step:
  assumes "run_task w db t = (out, db')" and "outages db = []"
  shows "outages db' = [] \<and> unique_hash ` set (rows db) \<subseteq> unique_hash ` set (rows db') \<and>
         (distinct (map unique_hash (rows db)) \<longrightarrow> distinct (map unique_hash (rows db')))"
proof (cases "db' = db")
  case True
  with assms(2) show ?thesis by simp
next
  case False
  with assms(1) obtain item o' where "process_and_save (sha256_hex w) db item = Inr (o', db')"
    by (auto simp: run_task_def split: http.splits if_splits option.splits sum.splits)
  from process_and_save_step [OF this assms(2)] show ?thesis .
qed

lemma process_and_save_raises_again:
  assumes "process_and_save H db item = Inl e"
  shows "process_and_save H d item = Inl e \<or> process_and_save H d item = Inr (Skipped, d)"
proof (cases "item_hash H item")
  case (Inl e')
  with assms show ?thesis by (simp add: process_and_save_def)
next
  case (Inr k)
  show ?thesis
  proof (cases "k \<in> unique_hash ` set (rows d)")
    case True
    from process_and_save_present [OF Inr True] show ?thesis by simp
  next
    case False
    then have "find (\<lambda>r. unique_hash r = k) (rows d) = None" by (simp add: find_hash_None)
    with assms Inr show ?thesis
      by (auto simp: process_and_save_def split: option.splits)
  qed
qed

lemma process_and_save_settles:
  assumes run: "process_and_save H db item = Inr (out, db')"
    and "outages db = []" and "outages d = []"
    and sub: "unique_hash ` set (rows db') \<subseteq> unique_hash ` set (rows d)"
  shows "process_and_save H d item = Inr (Skipped, d) \<or>
         process_and_save H d item = Inr (out, d) \<and> out \<noteq> Added"
proof -
  from run obtain k where k: "item_hash H item = Inr k"
    by (auto simp: process_and_save_def split: sum.splits)
  show ?thesis
  proof (cases "k \<in> unique_hash ` set (rows d)")
    case True
    from process_and_save_present [OF k True] show ?thesis by simp
  next
    case False
    with sub have k_new: "k \<notin> unique_hash ` set (rows db')" by blast
    have step: "unique_hash ` set (rows db) \<subseteq> unique_hash ` set (rows db')"
      using process_and_save_step [OF run \<open>outages db = []\<close>] by simp
    with k_new have "k \<notin> unique_hash ` set (rows db)" by blast
    then have f_db: "find (\<lambda>r. unique_hash r = k) (rows db) = None"
      by (simp add: find_hash_None)
    from False have f_d: "find (\<lambda>r. unique_hash r = k) (rows d) = None"
      by (simp add: find_hash_None)
    from run k f_db obtain sn where sn: "map_of item ''source_name'' = Some sn"
      and ac: "add_commit db (new_stock k item sn) = (out, db')"
      by (auto simp: process_and_save_def split: option.splits)
    have uh: "unique_hash (new_stock k item sn) = k" by (simp add: new_stock_def)
    from add_commit_cases [OF ac \<open>outages db = []\<close>] k_new uh
    have "out = IntegrityFailure" and
      "company_name (new_stock k item sn) = PNone \<or> source_url (new_stock k item sn) = PNone
       \<or> source_name (new_stock k item sn) = PNone"
      using \<open>k \<notin> unique_hash ` set (rows db)\<close> by auto
    with add_commit_integrity [OF \<open>outages d = []\<close>, of "new_stock k item sn"]
    have "add_commit d (new_stock k item sn) = (out, d)" by simp
    with k f_d sn \<open>out = IntegrityFailure\<close> show ?thesis
      by (simp add: process_and_save_def)
  qed
qed

lemma run_task_settles:
  assumes run: "run_task w db t = (out, db')"
    and "outages db = []" and "outages d = []"
    and sub: "unique_hash ` set (rows db') \<subseteq> unique_hash ` set (rows d)"
  shows "\<exists>out2. run_task w d t = (out2, d) \<and>
           (out2 = Saved Skipped \<or> out2 = out \<and> out \<noteq> Saved Added)"
proof (cases "http_get w (task_url t)")
  case RequestFailed
  with run show ?thesis by (auto simp: run_task_def)
next
  case (Response code body)
  show ?thesis
  proof (cases "code = 200")
    case False
    with run Response show ?thesis by (auto simp: run_task_def)
  next
    case True
    show ?thesis
    proof (cases "task_parser t (task_url t) (BeautifulSoup w body)")
      case None
      with run Response True show ?thesis by (auto simp: run_task_def)
    next
      case (Some item)
      show ?thesis
      proof (cases "item = []")
        case True
        with run Response \<open>code = 200\<close> Some show ?thesis by (auto simp: run_task_def)
      next
        case False
        show ?thesis
        proof (cases "process_and_save (sha256_hex w) db item")
          case (Inl e)
          with run Response \<open>code = 200\<close> Some False have "out = Caught e"
            by (auto simp: run_task_def)
          with process_and_save_raises_again [OF Inl, of d] Response \<open>code = 200\<close> Some False
          show ?thesis by (auto simp: run_task_def)
        next
          case (Inr p)
          obtain o' dbx where p: "p = (o', dbx)" by (cases p)
          with Inr run Response \<open>code = 200\<close> Some False
          have out: "out = Saved o'" and dbx: "dbx = db'"
            by (auto simp: run_task_def)
          from Inr p dbx have "process_and_save (sha256_hex w) db item = Inr (o', db')" by simp
          from process_and_save_settles [OF this \<open>outages db = []\<close> \<open>outages d = []\<close> sub]
          show ?thesis using out Response \<open>code = 200\<close> Some False
            by (auto simp: run_task_def)
        qed
      qed
    qed
  qed
qed

lemma run_tasks_step:
  assumes "run_tasks w db ts = (outs, db')" and "outages db = []"
  shows "outages db' = [] \<and> unique_hash ` set (rows db) \<subseteq> unique_hash ` set (rows db') \<and>
         (distinct (map unique_hash (rows db)) \<longrightarrow> distinct (map unique_hash (rows db')))"
  using assms
proof (induction ts arbitrary: db outs)
  case Nil
  then show ?case by simp
next
  case (Cons t ts)
  obtain o1 db_once where t: "run_task w db t = (o1, db_once)" by (cases "run_task w db t")
  obtain os db2 where r0: "run_tasks w db_once ts = (os, db2)" by (cases "run_tasks w db_once ts")
  from Cons.prems(1) t r0 have e: "db' = db2" by simp
  with r0 have r: "run_tasks w db_once ts = (os, db')" by simp
  from run_task_step [OF t Cons.prems(2)] have s1: "outages db_once = []"
    "unique_hash ` set (rows db) \<subseteq> unique_hash ` set (rows db_once)"
    "distinct (map unique_hash (rows db)) \<longrightarrow> distinct (map unique_hash (rows db_once))"
    by simp_all
  from Cons.IH [OF r s1(1)] s1 e show ?case by blast
qed

lemma run_tasks_settle:
  assumes "run_tasks w db ts = (outs, db')" and "outages db = []" and "outages d = []"
    and "unique_hash ` set (rows db') \<subseteq> unique_hash ` set (rows d)"
  shows "\<exists>outs2. run_tasks w d ts = (outs2, d) \<and>
           list_all2 (\<lambda>out out2. out2 = Saved Skipped \<or> out2 = out \<and> out \<noteq> Saved Added)
             outs outs2"
  using assms
proof (induction ts arbitrary: db outs)
  case Nil
  then show ?case by simp
next
  case (Cons t ts)
  obtain o1 db_once where t: "run_task w db t = (o1, db_once)" by (cases "run_task w db t")
  obtain os db2 where r0: "run_tasks w db_once ts = (os, db2)" by (cases "run_tasks w db_once ts")
  from Cons.prems(1) t r0 have e: "db' = db2" "outs = o1 # os" by simp_all
  with r0 have r: "run_tasks w db_once ts = (os, db')" by simp
  from run_task_step [OF t Cons.prems(2)] have o1: "outages db_once = []" by simp
  from run_tasks_step [OF r o1] e
  have "unique_hash ` set (rows db_once) \<subseteq> unique_hash ` set (rows db')" by simp
  with Cons.prems(4) have sub1: "unique_hash ` set (rows db_once) \<subseteq> unique_hash ` set (rows d)"
    by blast
  from run_task_settles [OF t Cons.prems(2) Cons.prems(3) sub1]
  obtain out2 where t2: "run_task w d t = (out2, d)"
    and q: "out2 = Saved Skipped \<or> out2 = o1 \<and> o1 \<noteq> Saved Added" by blast
  from Cons.IH [OF r o1 Cons.prems(3)] Cons.prems(4) e
  obtain outs2 where r2: "run_tasks w d ts = (outs2, d)"
    and l: "list_all2 (\<lambda>out out2. out2 = Saved Skipped \<or> out2 = out \<and> out \<noteq> Saved Added)
             os outs2" by blast
  from t2 r2 have "run_tasks w d (t # ts) = (out2 # outs2, d)" by simp
  with q l e show ?case by auto
qed

lemma item_hash_strings:
  assumes "item_hash H item = Inr k"
  shows "\<exists>n u. map_of item ''company_name'' = Some (PStr n) \<and>
               map_of item ''source_url'' = Some (PStr u)"
  using assms by (auto simp: item_hash_def split: option.splits pyval.splits)

lemma process_and_save_persists:
  assumes "process_and_save H db item = Inr (out, db')" and "outages db = []"
    and k: "item_hash H item = Inr k"
    and sn: "map_of item ''source_name'' = Some sn" "sn \<noteq> PNone"
  shows "k \<in> unique_hash ` set (rows db')"
proof (cases "k \<in> unique_hash ` set (rows db)")
  case True
  from process_and_save_present [OF k True] assms(1) show ?thesis using True by simp
next
  case False
  then have f: "find (\<lambda>r. unique_hash r = k) (rows db) = None" by (simp add: find_hash_None)
  with assms(1) k sn have ac: "add_commit db (new_stock k item sn) = (out, db')"
    by (simp add: process_and_save_def)
  from item_hash_strings [OF k] sn
  have "company_name (new_stock k item sn) \<noteq> PNone" "source_url (new_stock k item sn) \<noteq> PNone"
    "source_name (new_stock k item sn) \<noteq> PNone" "unique_hash (new_stock k item sn) = k"
    by (auto simp: new_stock_def get_def)
  with add_commit_cases [OF ac assms(2)] False
  have "rows db' = rows db @ [(new_stock k item sn)\<lparr>id' := next_id db, retrieved_at := clock db\<rparr>]"
    by auto
  then show ?thesis by (simp add: new_stock_def)
qed

lemma run_task_persists:
  assumes "run_task w db t = (out, db')" and "outages db = []"
    and "http_get w (task_url t) = Response 200 body"
    and "task_parser t (task_url t) (BeautifulSoup w body) = Some item" and "item \<noteq> []"
    and k: "item_hash (sha256_hex w) item = Inr k"
    and sn: "map_of item ''source_name'' = Some sn" "sn \<noteq> PNone"
  shows "k \<in> unique_hash ` set (rows db')"
proof (cases "process_and_save (sha256_hex w) db item")
  case (Inl e)
  with k sn show ?thesis
    by (auto simp: process_and_save_def split: option.splits)
next
  case (Inr p)
  obtain o' dbx where p: "p = (o', dbx)" by (cases p)
  with Inr assms(1,3,4,5) have "dbx = db'" by (simp add: run_task_def)
  with Inr p have "process_and_save (sha256_hex w) db item = Inr (o', db')" by simp
  from process_and_save_persists [OF this assms(2) k sn] show ?thesis .
qed

lemma run_tasks_persist:
  assumes "run_tasks w db ts = (outs, db')" and "outages db = []" and "t \<in> set ts"
    and "http_get w (task_url t) = Response 200 body"
    and "task_parser t (task_url t) (BeautifulSoup w body) = Some item" and "item \<noteq> []"
    and k: "item_hash (sha256_hex w) item = Inr k"
    and sn: "map_of item ''source_name'' = Some sn" "sn \<noteq> PNone"
  shows "k \<in> unique_hash ` set (rows db')"
proof -
  from \<open>t \<in> set ts\<close> obtain pre post where ts: "ts = pre @ t # post"
    by (auto dest: split_list)
  obtain o1 db_once where r1: "run_tasks w db pre = (o1, db_once)" by (cases "run_tasks w db pre")
  obtain o2 db2 where rt: "run_task w db_once t = (o2, db2)" by (cases "run_task w db_once t")
  obtain o3 db3 where r3: "run_tasks w db2 post = (o3, db3)" by (cases "run_tasks w db2 post")
  from assms(1) ts r1 rt r3 have e: "db' = db3" by (simp add: run_tasks_append)
  from run_tasks_step [OF r1 assms(2)] have a1: "outages db_once = []" by simp
  from run_task_persists [OF rt a1 assms(4,5,6) k sn]
  have "k \<in> unique_hash ` set (rows db2)" .
  moreover from run_task_step [OF rt a1] have "outages db2 = []" by simp
  from run_tasks_step [OF r3 this]
  have "unique_hash ` set (rows db2) \<subseteq> unique_hash ` set (rows db3)" by simp
  ultimately show ?thesis using e by blast
qed

lemma one_row_per_hash:
  "distinct (map unique_hash rs) \<Longrightarrow> k \<in> unique_hash ` set rs \<Longrightarrow>
   length (filter (\<lambda>r. unique_hash r = k) rs) = 1"
proof (induction rs)
  case Nil
  then show ?case by simp
next
  case (Cons r rs)
  show ?case
  proof (cases "unique_hash r = k")
    case True
    with Cons.prems(1) have "k \<notin> unique_hash ` set rs" by auto
    then have "filter (\<lambda>r. unique_hash r = k) rs = []" by (auto simp: filter_empty_conv)
    with True show ?thesis by simp
  next
    case False
    with Cons show ?thesis by auto
  qed
qed

lemma key_of_normalised_pair:
  assumes "item_hash H item = Inr k"
    and "map_of item ''company_name'' = Some (PStr n)"
    and "map_of item ''source_url'' = Some (PStr u)"
    and "lower (strip n') = lower (strip n)" and "lower (strip u') = lower (strip u)"
  shows "create_unique_hash H n' u' = Inr k"
proof -
  from assms(1,2,3) have "create_unique_hash H n u = Inr k"
    by (simp add: item_hash_def)
  moreover from assms(4,5) have "hash_string n' u' = hash_string n u"
    by (simp add: hash_string_def)
  ultimately show ?thesis by (simp add: create_unique_hash_def)
qed
text \<open>
  Claim C1. Let a run over the tasks \<open>ts\<close> start in a store whose hashes are distinct (the
  table's \<open>unique\<close> constraint) and in which no commit fails, and let it end in the store
  \<open>db_once\<close>. Then a second run over the same tasks against the same world ends in
  \<open>db_once\<close> again: it writes nothing, and each of its outcomes is the duplicate skip or the
  first run's outcome, which then was not an added listing. The hashes of \<open>db_once\<close> are
  distinct, and for every task whose page was fetched and parsed into an item with a key
  and a source name, exactly one row of \<open>db_once\<close> is stored under the item's key. For any
  store at all, an item whose key is already there is skipped and the store is returned as
  it was. The key is the key of the normalised pair: any name and URL with the same
  stripped and lowered forms as the item's get the item's key.
\<close>

theorem second_run_writes_nothing:
  "outages db = [] \<and> distinct (map unique_hash (rows db)) \<and> run_tasks w db ts = (outs, db_once) \<longrightarrow>
     (\<exists>outs2. run_tasks w db_once ts = (outs2, db_once) \<and>
        list_all2 (\<lambda>out out2. out2 = Saved Skipped \<or> out2 = out \<and> out \<noteq> Saved Added) outs outs2) \<and>
     distinct (map unique_hash (rows db_once)) \<and>
     (\<forall>t body item k sn.
        t \<in> set ts \<and> http_get w (task_url t) = Response 200 body \<and>
        task_parser t (task_url t) (BeautifulSoup w body) = Some item \<and> item \<noteq> [] \<and>
        item_hash (sha256_hex w) item = Inr k \<and>
        map_of item ''source_name'' = Some sn \<and> sn \<noteq> PNone \<longrightarrow>
          length (filter (\<lambda>r. unique_hash r = k) (rows db_once)) = 1) \<and>
     (\<forall>item k d. item_hash (sha256_hex w) item = Inr k \<and> k \<in> unique_hash ` set (rows d) \<longrightarrow>
        process_and_save (sha256_hex w) d item = Inr (Skipped, d)) \<and>
     (\<forall>item k n u n' u'.
        item_hash (sha256_hex w) item = Inr k \<and>
        map_of item ''company_name'' = Some (PStr n) \<and> map_of item ''source_url'' = Some (PStr u) \<and>
        lower (strip n') = lower (strip n) \<and> lower (strip u') = lower (strip u) \<longrightarrow>
          create_unique_hash (sha256_hex w) n' u' = Inr k)"
proof (intro impI)
  assume a: "outages db = [] \<and> distinct (map unique_hash (rows db)) \<and>
    run_tasks w db ts = (outs, db_once)"
  then have o: "outages db = []" and d: "distinct (map unique_hash (rows db))"
    and r: "run_tasks w db ts = (outs, db_once)" by simp_all
  from run_tasks_step [OF r o] d have o1: "outages db_once = []"
    and d1: "distinct (map unique_hash (rows db_once))" by simp_all
  have again: "\<exists>outs2. run_tasks w db_once ts = (outs2, db_once) \<and>
        list_all2 (\<lambda>out out2. out2 = Saved Skipped \<or> out2 = out \<and> out \<noteq> Saved Added) outs outs2"
    by (rule run_tasks_settle [OF r o o1]) simp
  have one: "\<forall>t body item k sn.
        t \<in> set ts \<and> http_get w (task_url t) = Response 200 body \<and>
        task_parser t (task_url t) (BeautifulSoup w body) = Some item \<and> item \<noteq> [] \<and>
        item_hash (sha256_hex w) item = Inr k \<and>
        map_of item ''source_name'' = Some sn \<and> sn \<noteq> PNone \<longrightarrow>
          length (filter (\<lambda>r. unique_hash r = k) (rows db_once)) = 1"
  proof (intro allI impI)
    fix t body item k sn
    assume h: "t \<in> set ts \<and> http_get w (task_url t) = Response 200 body \<and>
        task_parser t (task_url t) (BeautifulSoup w body) = Some item \<and> item \<noteq> [] \<and>
        item_hash (sha256_hex w) item = Inr k \<and>
        map_of item ''source_name'' = Some sn \<and> sn \<noteq> PNone"
    then have "k \<in> unique_hash ` set (rows db_once)"
      using run_tasks_persist [OF r o, of t body item k sn] by blast
    with d1 show "length (filter (\<lambda>r. unique_hash r = k) (rows db_once)) = 1"
      by (rule one_row_per_hash)
  qed
  have skip: "\<forall>item k d. item_hash (sha256_hex w) item = Inr k \<and>
        k \<in> unique_hash ` set (rows d) \<longrightarrow>
        process_and_save (sha256_hex w) d item = Inr (Skipped, d)"
    using process_and_save_present by blast
  have pair: "\<forall>item k n u n' u'.
        item_hash (sha256_hex w) item = Inr k \<and>
        map_of item ''company_name'' = Some (PStr n) \<and> map_of item ''source_url'' = Some (PStr u) \<and>
        lower (strip n') = lower (strip n) \<and> lower (strip u') = lower (strip u) \<longrightarrow>
          create_unique_hash (sha256_hex w) n' u' = Inr k"
    using key_of_normalised_pair by blast
  show "(\<exists>outs2. run_tasks w db_once ts = (outs2, db_once) \<and>
        list_all2 (\<lambda>out out2. out2 = Saved Skipped \<or> out2 = out \<and> out \<noteq> Saved Added) outs outs2) \<and>
     distinct (map unique_hash (rows db_once)) \<and>
     (\<forall>t body item k sn.
        t \<in> set ts \<and> http_get w (task_url t) = Response 200 body \<and>
        task_parser t (task_url t) (BeautifulSoup w body) = Some item \<and> item \<noteq> [] \<and>
        item_hash (sha256_hex w) item = Inr k \<and>
        map_of item ''source_name'' = Some sn \<and> sn \<noteq> PNone \<longrightarrow>
          length (filter (\<lambda>r. unique_hash r = k) (rows db_once)) = 1) \<and>
     (\<forall>item k d. item_hash (sha256_hex w) item = Inr k \<and> k \<in> unique_hash ` set (rows d) \<longrightarrow>
        process_and_save (sha256_hex w) d item = Inr (Skipped, d)) \<and>
     (\<forall>item k n u n' u'.
        item_hash (sha256_hex w) item = Inr k \<and>
        map_of item ''company_name'' = Some (PStr n) \<and> map_of item ''source_url'' = Some (PStr u) \<and>
        lower (strip n') = lower (strip n) \<and> lower (strip u') = lower (strip u) \<longrightarrow>
          create_unique_hash (sha256_hex w) n' u' = Inr k)"
    by (rule conjI [OF again conjI [OF d1 conjI [OF one conjI [OF skip pair]]]])
qed

theorem second_run_writes_nothing_witness:
  "run_tasks demo_world
     (snd (run_tasks demo_world empty_store [demo_zone, demo_down, demo_arena]))
     [demo_zone, demo_down, demo_arena] =
     ([Saved Skipped, BadStatus 500, Saved Skipped],
      snd (run_tasks demo_world empty_store [demo_zone, demo_down, demo_arena])) \<and>
   length (rows (snd (run_tasks demo_world empty_store [demo_zone, demo_down, demo_arena]))) = 2 \<and>
   distinct (map unique_hash
     (rows (snd (run_tasks demo_world empty_store [demo_zone, demo_down, demo_arena])))) \<and>
   length (filter (\<lambda>r. unique_hash r = str ''acme||http://a/1'')
     (rows (snd (run_tasks demo_world empty_store [demo_zone, demo_down, demo_arena])))) = 1"
proof -
  let ?ts = "[demo_zone, demo_down, demo_arena]"
  let ?D = "snd (run_tasks demo_world empty_store ?ts)"
  let ?item = "[(''source_url'', PStr (str ''http://a/1'')),
                (''source_name'', PStr (str ''UnlistedZone'')),
                (''company_name'', PStr (str ''Acme'')), (''sector'', PStr (str ''Finance''))]"
  have first: "run_tasks demo_world empty_store ?ts =
      ([Saved Added, BadStatus 500, Saved Added], ?D)"
    by (simp add: run_eval store_eval string_eval)
  have again: "run_tasks demo_world ?D ?ts = ([Saved Skipped, BadStatus 500, Saved Skipped], ?D)"
    by (simp add: run_eval store_eval string_eval)
  have two: "length (rows ?D) = 2"
    by (simp add: run_eval store_eval string_eval)
  have pre: "outages empty_store = [] \<and> distinct (map unique_hash (rows empty_store)) \<and>
      run_tasks demo_world empty_store ?ts = ([Saved Added, BadStatus 500, Saved Added], ?D)"
    using first by (simp add: empty_store_def)
  have task: "demo_zone \<in> set ?ts \<and>
      http_get demo_world (task_url demo_zone) = Response 200 (str ''page one'') \<and>
      task_parser demo_zone (task_url demo_zone) (BeautifulSoup demo_world (str ''page one''))
        = Some ?item \<and> ?item \<noteq> [] \<and>
      item_hash (sha256_hex demo_world) ?item = Inr (str ''acme||http://a/1'') \<and>
      map_of ?item ''source_name'' = Some (PStr (str ''UnlistedZone'')) \<and>
      PStr (str ''UnlistedZone'') \<noteq> PNone"
    by (simp add: run_eval store_eval string_eval)
  note twice = second_run_writes_nothing
    [where w = demo_world and db = empty_store and ts = ?ts
       and outs = "[Saved Added, BadStatus 500, Saved Added]" and db_once = ?D,
     THEN mp, OF pre]
  have d: "distinct (map unique_hash (rows ?D))"
    by (rule twice [THEN conjunct2, THEN conjunct1])
  have one: "length (filter (\<lambda>r. unique_hash r = str ''acme||http://a/1'') (rows ?D)) = 1"
    by (rule twice [THEN conjunct2, THEN conjunct2, THEN conjunct1, rule_format, OF task])
  show ?thesis
    by (rule conjI [OF again conjI [OF two conjI [OF d one]]])
qed

section \<open>main.py: what the queries return\<close>


lemma length_order_by: "length (order_by_retrieved_at_desc rs) = length rs"
  by (simp add: order_by_retrieved_at_desc_def)

















end
